theory Spec2Isabelle
  imports Main
begin

section \<open>Data model of \<^verbatim>\<open>src/musicPlayer.ts\<close>\<close>

text \<open>
  \<^verbatim>\<open>interface QueueItem\<close> (lines 40-46). The optional property \<^verbatim>\<open>filePath?\<close> is an
  option: \<open>None\<close> is the absent property.
\<close>

record QueueItem =
  title :: string
  url :: string
  duration :: string
  thumbnail :: string
  filePath :: "string option"

text \<open>The union type \<^verbatim>\<open>'off' | 'single' | 'all'\<close> of the field \<^verbatim>\<open>repeat\<close> (line 67).\<close>

datatype RepeatMode = RepeatOff | RepeatSingle | RepeatAll

text \<open>A voice connection, named by the channel that was joined.\<close>

datatype VoiceConnection = VoiceConnection string

text \<open>
  A JavaScript promise settles once: \<^verbatim>\<open>resolve\<close> and \<^verbatim>\<open>reject\<close> act on a pending
  promise only.
\<close>

datatype PromiseState = Pending | Resolved | Rejected string

definition resolve :: "PromiseState \<Rightarrow> PromiseState" where
  "resolve p = (case p of Pending \<Rightarrow> Resolved | _ \<Rightarrow> p)"

definition reject :: "string \<Rightarrow> PromiseState \<Rightarrow> PromiseState" where
  "reject e p = (case p of Pending \<Rightarrow> Rejected e | _ \<Rightarrow> p)"

text \<open>
  The errors that reach the \<^verbatim>\<open>catch\<close> of \<^verbatim>\<open>playNext\<close> (line 610): the \<^verbatim>\<open>TypeError\<close> of
  reading \<^verbatim>\<open>current.title\<close> of \<^verbatim>\<open>undefined\<close> (line 573), a rejected download (line 574),
  the thrown \<^verbatim>\<open>Error\<close> of line 579, and a rejected \<^verbatim>\<open>entersState\<close> (line 582).
\<close>

datatype PlayNextError = TypeError | DownloadRejected string | NotConnected | NotReady

text \<open>
  What the player does to its collaborators, in order: \<^verbatim>\<open>downloadVideo(url)\<close>,
  \<^verbatim>\<open>audioPlayer.play\<close> of the stream of an item, \<^verbatim>\<open>unlinkSync(path)\<close>,
  \<^verbatim>\<open>audioPlayer.stop()\<close>, \<^verbatim>\<open>connection.destroy()\<close> and the
  \<^verbatim>\<open>console.error('PlayNext error:', ...)\<close> of the \<^verbatim>\<open>catch\<close>.
\<close>

datatype effect =
    Download string
  | AudioPlay QueueItem
  | Unlink string
  | AudioStop
  | Destroy
  | LogError PlayNextError

text \<open>
  The class \<^verbatim>\<open>MusicPlayer\<close> (lines 57-67). The first five fields are the private fields
  of the class that the operations below read and write. The others are the run-time
  context the object lives in:
  \<^item> \<open>listeners\<close>: the \<^verbatim>\<open>onStateChange\<close> closures that \<^verbatim>\<open>playNext\<close> has registered on the
    audio player (line 607) and that are not yet removed, each with its captured
    \<^verbatim>\<open>current\<close>;
  \<^item> \<open>timers\<close>: the delays in milliseconds of the pending
    \<^verbatim>\<open>setTimeout(() => this.playNext(), d)\<close>;
  \<^item> \<open>awaitingDownload\<close>: the activations of \<^verbatim>\<open>playNext\<close> suspended at
    \<^verbatim>\<open>await this.downloadVideo(current.url)\<close> (line 574), each with its \<^verbatim>\<open>current\<close>;
  \<^item> \<open>awaitingReady\<close>: the activations suspended at \<^verbatim>\<open>await entersState(...)\<close> (line 582);
  \<^item> \<open>effects\<close>: the calls made so far.
\<close>

record MusicPlayer =
  queue :: "QueueItem list"
  connection :: "VoiceConnection option"
  downloading :: bool
  currentlyPlaying :: "QueueItem option"
  repeat :: RepeatMode
  listeners :: "QueueItem list"
  timers :: "nat list"
  awaitingDownload :: "QueueItem list"
  awaitingReady :: "QueueItem list"
  effects :: "effect list"

text \<open>The field initialisers of lines 59-67; the constructor registers no closure of \<^verbatim>\<open>playNext\<close>.\<close>

definition init :: MusicPlayer where
  "init = \<lparr>queue = [], connection = None, downloading = False, currentlyPlaying = None,
     repeat = RepeatOff, listeners = [], timers = [], awaitingDownload = [],
     awaitingReady = [], effects = []\<rparr>"

text \<open>\<^verbatim>\<open>Array.prototype.shift\<close>: the removed head, \<^verbatim>\<open>undefined\<close> on an empty array.\<close>

definition shift :: "'a list \<Rightarrow> 'a option \<times> 'a list" where
  "shift xs = (case xs of [] \<Rightarrow> (None, []) | x # r \<Rightarrow> (Some x, r))"

text \<open>The download requests made so far, and the items handed to the audio player.\<close>

fun downloads_of :: "effect list \<Rightarrow> string list" where
  "downloads_of [] = []"
| "downloads_of (Download u # es) = u # downloads_of es"
| "downloads_of (_ # es) = downloads_of es"

fun played_of :: "effect list \<Rightarrow> QueueItem list" where
  "played_of [] = []"
| "played_of (AudioPlay i # es) = i # played_of es"
| "played_of (_ # es) = played_of es"

fun unlinked_of :: "effect list \<Rightarrow> string list" where
  "unlinked_of [] = []"
| "unlinked_of (Unlink p # es) = p # unlinked_of es"
| "unlinked_of (_ # es) = unlinked_of es"

section \<open>The advance step \<^verbatim>\<open>playNext\<close> (lines 552-617)\<close>

text \<open>
  The \<^verbatim>\<open>catch\<close> block, lines 610-616:
  \<^verbatim>\<open>
    console.error('PlayNext error:', error);
    this.currentlyPlaying = null;
    this.queue.shift();
    this.downloading = false;
    setTimeout(() => this.playNext(), 5000);
  \<close>
\<close>

definition playNext_catch :: "PlayNextError \<Rightarrow> MusicPlayer \<Rightarrow> MusicPlayer" where
  "playNext_catch e s =
     s\<lparr>effects := effects s @ [LogError e],
       currentlyPlaying := None,
       queue := snd (shift (queue s)),
       downloading := False,
       timers := timers s @ [5000]\<rparr>"

text \<open>
  The choice of \<^verbatim>\<open>current\<close>, lines 558-569:
  \<^verbatim>\<open>
    if (this.repeat === 'single' && this.currentlyPlaying) {
        current = this.currentlyPlaying;
    } else {
        current = this.queue.shift()!;
        if (this.repeat === 'all') {
            this.queue.push({ ...current });
        }
    }
  \<close>
  The \<^verbatim>\<open>!\<close> is erased at run time, so \<^verbatim>\<open>current\<close> is \<^verbatim>\<open>undefined\<close> (\<open>None\<close>) when the
  queue is empty. In that case, under \<^verbatim>\<open>'all'\<close>, the source pushes the empty object
  \<^verbatim>\<open>{ ...undefined }\<close>, which is no \<^verbatim>\<open>QueueItem\<close>; it is the only element of the queue,
  the read of \<^verbatim>\<open>current.title\<close> throws at once and the \<^verbatim>\<open>shift\<close> of the \<^verbatim>\<open>catch\<close> removes
  it again within the same synchronous run. The model pushes nothing there, and the
  \<^verbatim>\<open>shift\<close> of the \<^verbatim>\<open>catch\<close> removes nothing: the queue is empty before, and empty after,
  in both.
\<close>

definition playNext_dequeue :: "MusicPlayer \<Rightarrow> QueueItem option \<times> MusicPlayer" where
  "playNext_dequeue s =
     (if repeat s = RepeatSingle \<and> currentlyPlaying s \<noteq> None then (currentlyPlaying s, s)
      else (case shift (queue s) of
              (current, rest) \<Rightarrow>
                if repeat s = RepeatAll
                then (current, s\<lparr>queue := rest @ (case current of None \<Rightarrow> [] | Some c \<Rightarrow> [c])\<rparr>)
                else (current, s\<lparr>queue := rest\<rparr>)))"

text \<open>
  \<^verbatim>\<open>playNext\<close> from its entry to its first suspension: the guard of lines 553-556, the
  choice of \<^verbatim>\<open>current\<close>, \<^verbatim>\<open>this.downloading = true\<close>, the read of \<^verbatim>\<open>current.title\<close> (which
  throws into the \<^verbatim>\<open>catch\<close> when \<^verbatim>\<open>current\<close> is \<^verbatim>\<open>undefined\<close>) and the call of
  \<^verbatim>\<open>this.downloadVideo(current.url)\<close>, whose promise the activation then awaits.
\<close>

definition playNext :: "MusicPlayer \<Rightarrow> MusicPlayer" where
  "playNext s =
     (if queue s = [] \<and> repeat s \<noteq> RepeatAll then s
      else (case playNext_dequeue s of
              (current, s1) \<Rightarrow>
                (case current of
                   None \<Rightarrow> playNext_catch TypeError (s1\<lparr>downloading := True\<rparr>)
                 | Some c \<Rightarrow>
                     s1\<lparr>downloading := True,
                        effects := effects s1 @ [Download (url c)],
                        awaitingDownload := awaitingDownload s1 @ [c]\<rparr>)))"

text \<open>
  The oldest activation suspended at line 574 resumes with the settled promise of
  \<^verbatim>\<open>downloadVideo\<close>: a rejection enters the \<^verbatim>\<open>catch\<close>; otherwise
  \<^verbatim>\<open>this.downloading = false\<close>, the check of lines 578-580 and the call of
  \<^verbatim>\<open>entersState(this.connection, VoiceConnectionStatus.Ready, 30000)\<close>, which the
  activation awaits. A pending promise resumes nothing.
\<close>

definition playNext_downloaded :: "PromiseState \<Rightarrow> MusicPlayer \<Rightarrow> MusicPlayer" where
  "playNext_downloaded p s =
     (case awaitingDownload s of
        [] \<Rightarrow> s
      | c # rest \<Rightarrow>
          (case p of
             Pending \<Rightarrow> s
           | Rejected e \<Rightarrow> playNext_catch (DownloadRejected e) (s\<lparr>awaitingDownload := rest\<rparr>)
           | Resolved \<Rightarrow>
               (if connection s = None
                then playNext_catch NotConnected (s\<lparr>awaitingDownload := rest, downloading := False\<rparr>)
                else s\<lparr>awaitingDownload := rest, downloading := False,
                       awaitingReady := awaitingReady s @ [c]\<rparr>)))"

text \<open>
  The oldest activation suspended at line 582 resumes: \<^verbatim>\<open>entersState\<close> either rejects
  (the connection was not ready within 30 s) or returns, and then lines 584-608 run:
  \<^verbatim>\<open>this.audioPlayer.play(resource)\<close>, \<^verbatim>\<open>this.currentlyPlaying = current\<close> and the
  registration of the closure \<^verbatim>\<open>onStateChange\<close>.
\<close>

definition playNext_ready :: "bool \<Rightarrow> MusicPlayer \<Rightarrow> MusicPlayer" where
  "playNext_ready ok s =
     (case awaitingReady s of
        [] \<Rightarrow> s
      | c # rest \<Rightarrow>
          (if \<not> ok then playNext_catch NotReady (s\<lparr>awaitingReady := rest\<rparr>)
           else s\<lparr>awaitingReady := rest,
                  effects := effects s @ [AudioPlay c],
                  currentlyPlaying := Some c,
                  listeners := listeners s @ [c]\<rparr>))"

section \<open>The listeners on the audio player\<close>

text \<open>
  The closure \<^verbatim>\<open>onStateChange\<close> of lines 595-605, on a change to \<^verbatim>\<open>Idle\<close> from another
  status: it removes itself, shifts the queue and sets a timer of one second.
\<close>

definition onStateChange :: "MusicPlayer \<Rightarrow> MusicPlayer" where
  "onStateChange s =
     s\<lparr>listeners := tl (listeners s),
       queue := snd (shift (queue s)),
       timers := timers s @ [1000]\<rparr>"

text \<open>
  The handler of \<^verbatim>\<open>AudioPlayerStatus.Idle\<close>, lines 104-114:
  \<^verbatim>\<open>
    const finished = this.queue.shift();
    if (finished?.filePath) { try { unlinkSync(finished.filePath); } catch ... }
    this.playNext();
  \<close>
  An empty string is falsy.
\<close>

definition onIdle :: "MusicPlayer \<Rightarrow> MusicPlayer" where
  "onIdle s =
     (case shift (queue s) of
        (finished, rest) \<Rightarrow>
          playNext
            (case finished of
               None \<Rightarrow> s\<lparr>queue := rest\<rparr>
             | Some f \<Rightarrow>
                 (case filePath f of
                    None \<Rightarrow> s\<lparr>queue := rest\<rparr>
                  | Some p \<Rightarrow>
                      if p = [] then s\<lparr>queue := rest\<rparr>
                      else s\<lparr>queue := rest, effects := effects s @ [Unlink p]\<rparr>)))"

text \<open>
  A track ends: the audio player goes to \<^verbatim>\<open>Idle\<close> from another status. It emits
  \<^verbatim>\<open>'stateChange'\<close>, which runs every registered closure \<^verbatim>\<open>onStateChange\<close>, and then
  \<^verbatim>\<open>'idle'\<close>, which runs the handler of lines 104-114. The audio player is a library
  (\<^verbatim>\<open>@discordjs/voice\<close>) outside the repository; this is the order in which its state
  setter emits the two events.
\<close>

definition playerIdle :: "MusicPlayer \<Rightarrow> MusicPlayer" where
  "playerIdle s = onIdle ((onStateChange ^^ length (listeners s)) s)"

text \<open>The handler of \<^verbatim>\<open>'error'\<close>, lines 90-94.\<close>

definition onError :: "MusicPlayer \<Rightarrow> MusicPlayer" where
  "onError s = s\<lparr>queue := snd (shift (queue s)), timers := timers s @ [1000]\<rparr>"

section \<open>Commands\<close>

text \<open>\<^verbatim>\<open>stop\<close>, lines 620-626; \<^verbatim>\<open>this.connection?.destroy()\<close> calls nothing on \<^verbatim>\<open>null\<close>.\<close>

definition stop :: "MusicPlayer \<Rightarrow> MusicPlayer" where
  "stop s =
     s\<lparr>queue := [],
       effects := effects s @ [AudioStop] @ (case connection s of None \<Rightarrow> [] | Some c \<Rightarrow> [Destroy]),
       connection := None\<rparr>"

text \<open>\<^verbatim>\<open>skip\<close>, lines 633-635, and \<^verbatim>\<open>setRepeat\<close>, lines 541-549.\<close>

definition skip :: "MusicPlayer \<Rightarrow> MusicPlayer" where
  "skip s = s\<lparr>effects := effects s @ [AudioStop]\<rparr>"

definition setRepeat :: "RepeatMode \<Rightarrow> MusicPlayer \<Rightarrow> MusicPlayer" where
  "setRepeat mode s = s\<lparr>repeat := mode\<rparr>"

text \<open>
  The handler of \<^verbatim>\<open>VoiceConnectionStatus.Disconnected\<close> when the reconnection fails,
  lines 167-170.
\<close>

definition connectionLost :: "MusicPlayer \<Rightarrow> MusicPlayer" where
  "connectionLost s =
     s\<lparr>effects := effects s @ (case connection s of None \<Rightarrow> [] | Some c \<Rightarrow> [Destroy]),
       connection := None\<rparr>"

text \<open>A pending timer fires: \<^verbatim>\<open>() => this.playNext()\<close>.\<close>

definition timerFired :: "nat \<Rightarrow> MusicPlayer \<Rightarrow> MusicPlayer" where
  "timerFired i s =
     (if i < length (timers s)
      then playNext (s\<lparr>timers := take i (timers s) @ drop (Suc i) (timers s)\<rparr>)
      else s)"

subsection \<open>\<^verbatim>\<open>play\<close> (lines 402-461)\<close>

text \<open>
  The four values of an object literal pushed on the queue (lines 338-343, 377-383,
  486-491 and 504-509), as the resolver computed them. None of the literals has a
  \<^verbatim>\<open>filePath\<close>.
\<close>

record Metadata =
  m_title :: string
  m_url :: string
  m_duration :: string
  m_thumbnail :: string

definition newItem :: "Metadata \<Rightarrow> QueueItem" where
  "newItem m =
     \<lparr>title = m_title m, url = m_url m, duration = m_duration m,
      thumbnail = m_thumbnail m, filePath = None\<rparr>"

text \<open>
  \<^verbatim>\<open>ensureConnection\<close>, lines 146-188. \<open>ok\<close> says that every \<^verbatim>\<open>entersState\<close> it awaits
  returns; otherwise its \<^verbatim>\<open>catch\<close> destroys the connection and returns \<^verbatim>\<open>false\<close>.
\<close>

definition ensureConnection :: "string \<Rightarrow> bool \<Rightarrow> MusicPlayer \<Rightarrow> bool \<times> MusicPlayer" where
  "ensureConnection channel ok s =
     (if ok
      then (True, (case connection s of
                     None \<Rightarrow> s\<lparr>connection := Some (VoiceConnection channel)\<rparr>
                   | Some c \<Rightarrow> s))
      else (False, s\<lparr>effects := effects s @ [Destroy], connection := None\<rparr>))"

text \<open>
  What the resolution of the query did, by the branch of lines 417-452 it took:
  \<^item> \<open>SpotifyItems ms\<close>: \<^verbatim>\<open>handleSpotifyUrl\<close> returned the items \<open>ms\<close>;
  \<^item> \<open>YoutubePlaylistNoId\<close>: the \<^verbatim>\<open>list=\<close> parameter is empty (lines 435-438);
  \<^item> \<open>YoutubePlaylist ms\<close>: \<^verbatim>\<open>handleYoutubePlaylist\<close> pushed \<open>ms\<close> and returned (none for
    an empty or private playlist, lines 470-473);
  \<^item> \<open>YoutubeVideo m\<close>: \<^verbatim>\<open>handleYoutubeSingleVideo\<close> pushed \<open>m\<close>, for a video URL or for
    the video a search found;
  \<^item> \<open>SearchNotFound\<close>: the search found nothing (lines 447-450);
  \<^item> \<open>Threw ms\<close>: an exception after \<open>ms\<close> were pushed, caught at line 457.
\<close>

datatype Resolved =
    SpotifyItems "Metadata list"
  | YoutubePlaylistNoId
  | YoutubePlaylist "Metadata list"
  | YoutubeVideo Metadata
  | SearchNotFound
  | Threw "Metadata list"

record PlayRequest =
  voiceChannel :: "string option"
  connectOk :: bool
  resolved :: Resolved

definition play_push :: "Metadata list \<Rightarrow> MusicPlayer \<Rightarrow> MusicPlayer" where
  "play_push ms s = s\<lparr>queue := queue s @ map newItem ms\<rparr>"

text \<open>
  Lines 454-456:
  \<^verbatim>\<open>if (this.queue.length === 1 && !this.downloading) { await this.playNext(); }\<close>
\<close>

definition play_check :: "MusicPlayer \<Rightarrow> MusicPlayer" where
  "play_check s = (if length (queue s) = 1 \<and> \<not> downloading s then playNext s else s)"

definition play :: "PlayRequest \<Rightarrow> MusicPlayer \<Rightarrow> MusicPlayer" where
  "play r s =
     (case voiceChannel r of
        None \<Rightarrow> s
      | Some channel \<Rightarrow>
          (case ensureConnection channel (connectOk r) s of
             (connected, s1) \<Rightarrow>
               if \<not> connected then s1
               else (case resolved r of
                       SpotifyItems ms \<Rightarrow>
                         if ms \<noteq> [] then play_check (play_push ms s1) else s1
                     | YoutubePlaylistNoId \<Rightarrow> s1
                     | YoutubePlaylist ms \<Rightarrow> play_check (play_push ms s1)
                     | YoutubeVideo m \<Rightarrow> play_check (play_push [m] s1)
                     | SearchNotFound \<Rightarrow> s1
                     | Threw ms \<Rightarrow> play_push ms s1)))"

section \<open>Runs of a session\<close>

text \<open>
  What happens to a session, one event at a time: a command, an event of the audio
  player or of the connection, a timer, or the resumption of a suspended \<^verbatim>\<open>playNext\<close>.

  \<^verbatim>\<open>play\<close> is an \<^verbatim>\<open>async\<close> function that suspends between its steps (at the
  \<^verbatim>\<open>await\<close> of \<^verbatim>\<open>ensureConnection\<close>, of the lookups before each push, and of
  \<^verbatim>\<open>editReply\<close> before the check of line 454), so other events can fall between them.
  \<open>Play r\<close> is a whole request with nothing in between. The steps of a request that is
  interleaved with other events are events of their own: \<open>PlayConnect\<close> is the call of
  \<^verbatim>\<open>ensureConnection\<close> (line 410), \<open>PlayPush\<close> a push of lines 421, 486 or 504, and
  \<open>PlayCheck\<close> the check of lines 454-456.
\<close>

datatype event =
    Play PlayRequest
  | PlayConnect string bool
  | PlayPush "Metadata list"
  | PlayCheck
  | SetRepeat RepeatMode
  | Stop
  | Skip
  | PlayerIdle
  | PlayerError
  | TimerFired nat
  | Downloaded PromiseState
  | ConnectionReady bool
  | ConnectionLost

fun step :: "event \<Rightarrow> MusicPlayer \<Rightarrow> MusicPlayer" where
  "step (Play r) s = play r s"
| "step (PlayConnect channel ok) s = snd (ensureConnection channel ok s)"
| "step (PlayPush ms) s = play_push ms s"
| "step PlayCheck s = play_check s"
| "step (SetRepeat mode) s = setRepeat mode s"
| "step Stop s = stop s"
| "step Skip s = skip s"
| "step PlayerIdle s = playerIdle s"
| "step PlayerError s = onError s"
| "step (TimerFired i) s = timerFired i s"
| "step (Downloaded p) s = playNext_downloaded p s"
| "step (ConnectionReady ok) s = playNext_ready ok s"
| "step ConnectionLost s = connectionLost s"

definition run :: "event list \<Rightarrow> MusicPlayer \<Rightarrow> MusicPlayer" where
  "run es s = fold step es s"

section \<open>The download pipeline \<^verbatim>\<open>downloadVideo\<close> (lines 190-253)\<close>

text \<open>
  A child process as \<^verbatim>\<open>spawn\<close> returns it; \<open>killed\<close> is the property of that name, which
  only a call of \<^verbatim>\<open>kill\<close> sets.
\<close>

record ChildProcess =
  command :: string
  args :: "string list"
  killed :: bool

definition spawn :: "string \<Rightarrow> string list \<Rightarrow> ChildProcess" where
  "spawn cmd as = \<lparr>command = cmd, args = as, killed = False\<rparr>"

text \<open>
  The state of one call: the two processes (if spawned), the promise it returned,
  whether the progress bar runs, and whether the handlers of lines 220-243 are
  registered and the fetch output is piped into the decoder (line 245).
\<close>

record Pipeline =
  ytdlp :: "ChildProcess option"
  ffmpeg :: "ChildProcess option"
  promise :: PromiseState
  progressBar :: bool
  piped :: bool

text \<open>
  The executor of the promise. \<open>ytdlpThrows\<close> and \<open>ffmpegThrows\<close> are the errors the two
  calls of \<^verbatim>\<open>spawn\<close> throw, if they throw; the \<^verbatim>\<open>catch\<close> of lines 248-251 rejects with
  the error. Otherwise the executor runs to \<^verbatim>\<open>resolve(ffmpeg.stdout)\<close> (line 246).
\<close>

definition downloadVideo :: "string \<Rightarrow> string option \<Rightarrow> string option \<Rightarrow> Pipeline" where
  "downloadVideo u ytdlpThrows ffmpegThrows =
     (case ytdlpThrows of
        Some e \<Rightarrow>
          \<lparr>ytdlp = None, ffmpeg = None, promise = reject e Pending,
           progressBar = False, piped = False\<rparr>
      | None \<Rightarrow>
          (case ffmpegThrows of
             Some e \<Rightarrow>
               \<lparr>ytdlp = Some (spawn ''yt-dlp''
                   [''-f'', ''bestaudio'', ''--no-playlist'', ''--progress'', ''-o'', ''-'', u]),
                ffmpeg = None, promise = reject e Pending,
                progressBar = False, piped = False\<rparr>
           | None \<Rightarrow>
               \<lparr>ytdlp = Some (spawn ''yt-dlp''
                   [''-f'', ''bestaudio'', ''--no-playlist'', ''--progress'', ''-o'', ''-'', u]),
                ffmpeg = Some (spawn ''ffmpeg''
                   [''-i'', ''pipe:0'', ''-f'', ''s16le'', ''-ar'', ''48000'', ''-ac'', ''2'',
                    ''-loglevel'', ''error'', ''-buffer_size'', ''16M'', ''pipe:1'']),
                promise = resolve Pending,
                progressBar = True, piped = True\<rparr>))"

text \<open>
  The events of the two processes after the executor has run, and their handlers
  (lines 231-243), which exist only when the executor registered them.
\<close>

datatype ProcessEvent = YtdlpError string | FfmpegError string | FfmpegClose

definition processEvent :: "ProcessEvent \<Rightarrow> Pipeline \<Rightarrow> Pipeline" where
  "processEvent ev d =
     (if \<not> piped d then d
      else (case ev of
              YtdlpError e \<Rightarrow> d\<lparr>progressBar := False, promise := reject e (promise d)\<rparr>
            | FfmpegError e \<Rightarrow> d\<lparr>progressBar := False, promise := reject e (promise d)\<rparr>
            | FfmpegClose \<Rightarrow> d\<lparr>progressBar := False\<rparr>))"

section \<open>Iterated dequeues and sample sessions\<close>

text \<open>\<open>n\<close> consecutive choices of \<^verbatim>\<open>current\<close>: the descriptors chosen, and the state after.\<close>

fun dequeue_n :: "nat \<Rightarrow> MusicPlayer \<Rightarrow> QueueItem option list \<times> MusicPlayer" where
  "dequeue_n 0 s = ([], s)"
| "dequeue_n (Suc n) s =
     (case playNext_dequeue s of
        (c, s1) \<Rightarrow> (case dequeue_n n s1 of (cs, s2) \<Rightarrow> (c # cs, s2)))"

text \<open>
  Sample data: the metadata of a video named \<open>n\<close>, the item pushed for it, and a request
  from a member who sits in a voice channel that can be joined.
\<close>

definition meta :: "string \<Rightarrow> Metadata" where
  "meta n = \<lparr>m_title = n, m_url = ''https://youtu.be/'' @ n, m_duration = ''3:05'',
     m_thumbnail = []\<rparr>"

definition item :: "string \<Rightarrow> QueueItem" where
  "item n = newItem (meta n)"

definition request :: "Resolved \<Rightarrow> PlayRequest" where
  "request r = \<lparr>voiceChannel = Some ''general'', connectOk = True, resolved = r\<rparr>"

text \<open>A request for the single video \<open>n\<close>, followed by its download and its start.\<close>

definition started :: "string \<Rightarrow> event list" where
  "started n = [Play (request (YoutubeVideo (meta n))), Downloaded Resolved, ConnectionReady True]"

text \<open>
  No descriptor the session holds has a \<^verbatim>\<open>filePath\<close>, and \<^verbatim>\<open>unlinkSync\<close> was never called.
\<close>

definition unset :: "QueueItem \<Rightarrow> bool" where
  "unset i = (filePath i = None)"

definition no_filePath :: "MusicPlayer \<Rightarrow> bool" where
  "no_filePath s =
     (list_all unset (queue s) \<and> list_all unset (listeners s)
      \<and> list_all unset (awaitingDownload s) \<and> list_all unset (awaitingReady s)
      \<and> (case currentlyPlaying s of None \<Rightarrow> True | Some c \<Rightarrow> unset c)
      \<and> unlinked_of (effects s) = [])"


section \<open>Auxiliary facts\<close>

lemma downloads_of_append: "downloads_of (xs @ ys) = downloads_of xs @ downloads_of ys"
  by (induction xs rule: downloads_of.induct) simp_all

lemma played_of_append: "played_of (xs @ ys) = played_of xs @ played_of ys"
  by (induction xs rule: played_of.induct) simp_all

lemma unlinked_of_append: "unlinked_of (xs @ ys) = unlinked_of xs @ unlinked_of ys"
  by (induction xs rule: unlinked_of.induct) simp_all

lemma list_all_tl: "list_all P xs \<Longrightarrow> list_all P (tl xs)"
  by (cases xs) simp_all

section \<open>Repeat mode \<^verbatim>\<open>off\<close>: order of play\<close>

text \<open>
  C1. Under repeat \<^verbatim>\<open>off\<close> the order of play should be the order of insertion, one item
  leaving the queue per completed track. The code does otherwise. \<open>A\<close> is requested and
  starts (\<^verbatim>\<open>playNext\<close> has shifted it out of the queue); a playlist \<open>B, C, D\<close> is added
  while \<open>A\<close> plays; \<open>A\<close> ends. The closure \<^verbatim>\<open>onStateChange\<close> shifts \<open>B\<close> away, the \<^verbatim>\<open>Idle\<close>
  handler shifts \<open>C\<close> away, and \<^verbatim>\<open>playNext\<close> shifts and plays \<open>D\<close>: three items leave the
  queue for one completed track, and \<open>B\<close> and \<open>C\<close> are never played. The \<^verbatim>\<open>Idle\<close> handler
  alone, on the queue \<open>B, C, D\<close>, already drops \<open>B\<close> and starts \<open>C\<close>.
\<close>

theorem off_completion_drops_tracks:
  "queue (run (started ''A'' @
       [Play (request (YoutubePlaylist [meta ''B'', meta ''C'', meta ''D'']))]) init)
     = [item ''B'', item ''C'', item ''D'']
   \<and> queue (run (started ''A'' @
       [Play (request (YoutubePlaylist [meta ''B'', meta ''C'', meta ''D''])), PlayerIdle]) init)
     = []
   \<and> played_of (effects (run (started ''A'' @
       [Play (request (YoutubePlaylist [meta ''B'', meta ''C'', meta ''D''])),
        PlayerIdle, Downloaded Resolved, ConnectionReady True]) init))
     = [item ''A'', item ''D'']
   \<and> queue (onIdle (init\<lparr>queue := [item ''B'', item ''C'', item ''D'']\<rparr>)) = [item ''D'']
   \<and> awaitingDownload (onIdle (init\<lparr>queue := [item ''B'', item ''C'', item ''D'']\<rparr>))
     = [item ''C'']"
  by code_simp

section \<open>Repeat mode \<^verbatim>\<open>all\<close>: the rotation of the queue\<close>

lemma dequeue_all_step:
  "repeat s = RepeatAll \<Longrightarrow> queue s = x # xs \<Longrightarrow>
   playNext_dequeue s = (Some x, s\<lparr>queue := xs @ [x]\<rparr>)"
  by (simp add: playNext_dequeue_def shift_def)

lemma dequeue_n_all:
  "repeat s = RepeatAll \<Longrightarrow> n \<le> length (queue s) \<Longrightarrow>
   dequeue_n n s =
     (map Some (take n (queue s)), s\<lparr>queue := drop n (queue s) @ take n (queue s)\<rparr>)"
proof (induction n arbitrary: s)
  case 0
  then show ?case by simp
next
  case (Suc n)
  then obtain x xs where q: "queue s = x # xs"
    by (cases "queue s") auto
  let ?s1 = "s\<lparr>queue := xs @ [x]\<rparr>"
  have d: "playNext_dequeue s = (Some x, ?s1)"
    using Suc.prems(1) q by (rule dequeue_all_step)
  have n: "n \<le> length xs" using Suc.prems(2) q by simp
  have "dequeue_n n ?s1 =
      (map Some (take n (queue ?s1)), ?s1\<lparr>queue := drop n (queue ?s1) @ take n (queue ?s1)\<rparr>)"
    using Suc.prems(1) n by (intro Suc.IH) simp_all
  then show ?case
    using d q n by simp
qed

text \<open>
  Against C2 as stated: with the queue \<open>X, Y\<close> under \<^verbatim>\<open>all\<close>, the copy of \<open>X\<close> stands at the
  tail as soon as \<^verbatim>\<open>playNext\<close> has chosen \<open>X\<close>, before anything was handed to the audio
  player. And in a session (\<open>X\<close> requested and started, then \<open>Y\<close> requested) whose queue
  is \<open>X, Y\<close>, the queue is empty after the first completion.
\<close>

theorem all_copy_before_playing:
  "queue (playNext (init\<lparr>repeat := RepeatAll, queue := [item ''X'', item ''Y'']\<rparr>))
     = [item ''Y'', item ''X'']
   \<and> played_of (effects (playNext (init\<lparr>repeat := RepeatAll, queue := [item ''X'', item ''Y'']\<rparr>)))
     = []
   \<and> queue (run (SetRepeat RepeatAll # started ''X'' @
        [Play (request (YoutubeVideo (meta ''Y'')))]) init) = [item ''X'', item ''Y'']
   \<and> queue (run (SetRepeat RepeatAll # started ''X'' @
        [Play (request (YoutubeVideo (meta ''Y''))), PlayerIdle]) init) = []"
  by code_simp

text \<open>
  C2, amended. Under repeat \<^verbatim>\<open>all\<close> the choice of \<^verbatim>\<open>current\<close> removes the head of a
  non-empty queue and appends a copy of it to the tail at once, before the download is
  requested and before anything is played; the other items keep their order. As many
  consecutive choices as the queue has items return the items in queue order and leave
  the queue as it was.
\<close>

theorem all_dequeue_rotates:
  assumes "repeat s = RepeatAll"
  shows "(\<forall>x xs. queue s = x # xs \<longrightarrow>
            fst (playNext_dequeue s) = Some x
          \<and> queue (snd (playNext_dequeue s)) = xs @ [x]
          \<and> queue (playNext s) = xs @ [x]
          \<and> played_of (effects (playNext s)) = played_of (effects s))
       \<and> dequeue_n (length (queue s)) s = (map Some (queue s), s)"
proof -
  have "dequeue_n (length (queue s)) s = (map Some (queue s), s)"
    using dequeue_n_all [OF assms, of "length (queue s)"] by simp
  moreover have "fst (playNext_dequeue s) = Some x
          \<and> queue (snd (playNext_dequeue s)) = xs @ [x]
          \<and> queue (playNext s) = xs @ [x]
          \<and> played_of (effects (playNext s)) = played_of (effects s)"
    if "queue s = x # xs" for x xs
    using dequeue_all_step [OF assms that] that
    by (simp add: playNext_def played_of_append)
  ultimately show ?thesis by blast
qed

theorem all_dequeue_rotates_witness:
  "repeat (init\<lparr>repeat := RepeatAll, queue := [item ''X'', item ''Y'']\<rparr>) = RepeatAll
   \<and> fst (playNext_dequeue (init\<lparr>repeat := RepeatAll, queue := [item ''X'', item ''Y'']\<rparr>))
       = Some (item ''X'')
   \<and> queue (playNext (init\<lparr>repeat := RepeatAll, queue := [item ''X'', item ''Y'']\<rparr>))
       = [item ''Y'', item ''X'']
   \<and> dequeue_n 2 (init\<lparr>repeat := RepeatAll, queue := [item ''X'', item ''Y'']\<rparr>)
       = ([Some (item ''X''), Some (item ''Y'')],
          init\<lparr>repeat := RepeatAll, queue := [item ''X'', item ''Y'']\<rparr>)"
proof -
  let ?s = "init\<lparr>repeat := RepeatAll, queue := [item ''X'', item ''Y'']\<rparr>"
  have r: "repeat ?s = RepeatAll" by simp
  have q: "queue ?s = [item ''X'', item ''Y'']" by simp
  have l: "length (queue ?s) = 2" by simp
  note t = all_dequeue_rotates [OF r]
  have a: "fst (playNext_dequeue ?s) = Some (item ''X'')
         \<and> queue (playNext ?s) = [item ''Y'', item ''X'']"
    using t q by simp
  have b: "dequeue_n 2 ?s = ([Some (item ''X''), Some (item ''Y'')], ?s)"
    using t q unfolding l by simp
  show ?thesis using r a b by simp
qed

section \<open>\<^verbatim>\<open>stop\<close>\<close>

text \<open>
  Against C3 as stated: after \<open>A\<close> was requested and has started, \<^verbatim>\<open>stop\<close> leaves \<open>A\<close> in
  \<^verbatim>\<open>currentlyPlaying\<close>.
\<close>

theorem stop_keeps_currentlyPlaying:
  "currentlyPlaying (stop (run (started ''A'') init)) = Some (item ''A'')"
  by code_simp

text \<open>
  C3, amended. After \<^verbatim>\<open>stop\<close> the queue is empty and the connection is \<^verbatim>\<open>null\<close>;
  \<^verbatim>\<open>currentlyPlaying\<close> is what it was before.
\<close>

theorem stop_clears_queue_and_connection:
  "queue (stop s) = [] \<and> connection (stop s) = None
   \<and> currentlyPlaying (stop s) = currentlyPlaying s"
  by (simp add: stop_def)

section \<open>The \<^verbatim>\<open>catch\<close> of \<^verbatim>\<open>playNext\<close>\<close>

text \<open>
  C5. On a failure of the download the \<^verbatim>\<open>catch\<close> should drop the item that failed. The
  code does otherwise: \<open>X\<close> plays, a playlist \<open>A, B, C, D\<close> is added, \<open>X\<close> ends; \<^verbatim>\<open>playNext\<close>
  shifts \<open>C\<close> out of the queue and requests its download, and \<open>D\<close> is left in the queue.
  The download of \<open>C\<close> is rejected: the \<^verbatim>\<open>shift\<close> of the \<^verbatim>\<open>catch\<close> removes \<open>D\<close>, which never
  failed and is never downloaded. The current track is cleared, the flag is false, and
  the retry is set five seconds later. The same on any queue \<open>C, D\<close>: \<^verbatim>\<open>playNext\<close> takes
  \<open>C\<close>, and the \<^verbatim>\<open>catch\<close> for \<open>C\<close> removes \<open>D\<close>.
\<close>

theorem catch_drops_the_next_item:
  "awaitingDownload (run (started ''X'' @
       [Play (request (YoutubePlaylist [meta ''A'', meta ''B'', meta ''C'', meta ''D''])),
        PlayerIdle]) init) = [item ''C'']
   \<and> queue (run (started ''X'' @
       [Play (request (YoutubePlaylist [meta ''A'', meta ''B'', meta ''C'', meta ''D''])),
        PlayerIdle]) init) = [item ''D'']
   \<and> queue (run (started ''X'' @
       [Play (request (YoutubePlaylist [meta ''A'', meta ''B'', meta ''C'', meta ''D''])),
        PlayerIdle, Downloaded (Rejected ''ENOMEM'')]) init) = []
   \<and> currentlyPlaying (run (started ''X'' @
       [Play (request (YoutubePlaylist [meta ''A'', meta ''B'', meta ''C'', meta ''D''])),
        PlayerIdle, Downloaded (Rejected ''ENOMEM'')]) init) = None
   \<and> downloading (run (started ''X'' @
       [Play (request (YoutubePlaylist [meta ''A'', meta ''B'', meta ''C'', meta ''D''])),
        PlayerIdle, Downloaded (Rejected ''ENOMEM'')]) init) = False
   \<and> timers (run (started ''X'' @
       [Play (request (YoutubePlaylist [meta ''A'', meta ''B'', meta ''C'', meta ''D''])),
        PlayerIdle, Downloaded (Rejected ''ENOMEM'')]) init) = [1000, 5000]
   \<and> downloads_of (effects (run (started ''X'' @
       [Play (request (YoutubePlaylist [meta ''A'', meta ''B'', meta ''C'', meta ''D''])),
        PlayerIdle, Downloaded (Rejected ''ENOMEM''), TimerFired 0, TimerFired 0]) init))
     = [url (item ''X''), url (item ''C'')]
   \<and> awaitingDownload (playNext (init\<lparr>queue := [item ''C'', item ''D'']\<rparr>)) = [item ''C'']
   \<and> queue (playNext (init\<lparr>queue := [item ''C'', item ''D'']\<rparr>)) = [item ''D'']
   \<and> queue (playNext_downloaded (Rejected ''ENOMEM'')
        (playNext (init\<lparr>queue := [item ''C'', item ''D'']\<rparr>))) = []"
  by code_simp

section \<open>The download pipeline\<close>

lemma reject_settled: "p \<noteq> Pending \<Longrightarrow> reject e p = p"
  by (cases p) (simp_all add: reject_def)

lemma processEvent_keeps:
  "ytdlp (processEvent ev d) = ytdlp d \<and> ffmpeg (processEvent ev d) = ffmpeg d
   \<and> (promise d \<noteq> Pending \<longrightarrow> promise (processEvent ev d) = promise d)"
  by (cases ev) (simp_all add: processEvent_def reject_settled)

lemma fold_processEvent_keeps:
  "ytdlp (fold processEvent evs d) = ytdlp d \<and> ffmpeg (fold processEvent evs d) = ffmpeg d
   \<and> (promise d \<noteq> Pending \<longrightarrow> promise (fold processEvent evs d) = promise d)"
proof (induction evs arbitrary: d)
  case Nil
  then show ?case by simp
next
  case (Cons ev evs)
  show ?case
    using Cons.IH [of "processEvent ev d"] processEvent_keeps [of ev d] by simp
qed

text \<open>
  Against C6 as stated: when the decoder reports an error after the executor has run,
  the promise stays resolved and the fetch process is not killed; and when the spawn of
  the decoder throws, the promise is rejected with that error, while the fetch process,
  already spawned, is not killed.
\<close>

theorem failed_stage_leaves_pipeline_running:
  "promise (processEvent (FfmpegError ''ENOENT'') (downloadVideo ''u'' None None)) = Resolved
   \<and> map_option killed (ytdlp (processEvent (FfmpegError ''ENOENT'') (downloadVideo ''u'' None None)))
     = Some False
   \<and> promise (downloadVideo ''u'' None (Some ''ENOMEM'')) = Rejected ''ENOMEM''
   \<and> map_option killed (ytdlp (downloadVideo ''u'' None (Some ''ENOMEM''))) = Some False"
  by code_simp

text \<open>
  C6, amended. For every URL, when the spawn of the fetch stage or of the decode stage
  throws, the promise of \<^verbatim>\<open>downloadVideo\<close> is rejected with the error thrown, and stays
  so. \<^verbatim>\<open>downloadVideo\<close> kills no process, whatever the spawns do and whatever the
  processes report later: a fetch process that was spawned, and a decoder that was
  spawned, are never killed.
\<close>

theorem downloadVideo_rejects_and_never_kills:
  "promise (fold processEvent evs (downloadVideo u (Some e) f)) = Rejected e
   \<and> promise (fold processEvent evs (downloadVideo u None (Some e))) = Rejected e
   \<and> map_option killed (ytdlp (fold processEvent evs (downloadVideo u None f))) = Some False
   \<and> map_option killed (ffmpeg (fold processEvent evs (downloadVideo u None None))) = Some False
   \<and> map_option killed (ytdlp (fold processEvent evs (downloadVideo u y f))) \<noteq> Some True
   \<and> map_option killed (ffmpeg (fold processEvent evs (downloadVideo u y f))) \<noteq> Some True"
  using fold_processEvent_keeps [of evs "downloadVideo u (Some e) f"]
        fold_processEvent_keeps [of evs "downloadVideo u None (Some e)"]
        fold_processEvent_keeps [of evs "downloadVideo u None f"]
        fold_processEvent_keeps [of evs "downloadVideo u None None"]
        fold_processEvent_keeps [of evs "downloadVideo u y f"]
  by (simp add: downloadVideo_def reject_def resolve_def spawn_def split: option.splits)

section \<open>The flag \<^verbatim>\<open>downloading\<close>\<close>


















section \<open>The start of playback by \<^verbatim>\<open>play\<close>\<close>

text \<open>
  C7. An enqueue into an idle session should start the download of the head, however
  many descriptors it appends. The code does otherwise: a playlist of two videos
  requested in a fresh session is enqueued, the check of lines 454-456 finds a queue of
  length two, and nothing is downloaded or played.
\<close>

theorem playlist_into_idle_session_starts_nothing:
  "queue (run [Play (request (YoutubePlaylist [meta ''A'', meta ''B'']))] init)
     = [item ''A'', item ''B'']
   \<and> downloads_of (effects (run [Play (request (YoutubePlaylist [meta ''A'', meta ''B'']))] init))
     = []
   \<and> awaitingDownload (run [Play (request (YoutubePlaylist [meta ''A'', meta ''B'']))] init) = []
   \<and> currentlyPlaying (run [Play (request (YoutubePlaylist [meta ''A'', meta ''B'']))] init) = None"
  by code_simp

lemma playNext_single_item:
  assumes "queue s = [x]" and "repeat s \<noteq> RepeatSingle \<or> currentlyPlaying s = None"
  shows "downloads_of (effects (playNext s)) = downloads_of (effects s) @ [url x]
       \<and> awaitingDownload (playNext s) = awaitingDownload s @ [x]"
  using assms
  by (auto simp: playNext_def playNext_dequeue_def shift_def downloads_of_append)

text \<open>
  What a whole \<^verbatim>\<open>play\<close> request does in general, with no other event between its steps:
  a request by a member in a voice channel that can be
  joined, in a session with an empty queue and no download in flight, starts the
  download of the head exactly when it enqueues one descriptor (and single repeat does
  not choose a current track instead). When it enqueues a list of any other length, the
  descriptors are queued and nothing is downloaded.
\<close>

theorem play_starts_head_of_single_item:
  assumes "voiceChannel r = Some ch" and "connectOk r"
    and "queue s = []" and "\<not> downloading s"
    and "repeat s \<noteq> RepeatSingle \<or> currentlyPlaying s = None"
  shows "(resolved r = YoutubeVideo m \<or> resolved r = YoutubePlaylist [m] \<or> resolved r = SpotifyItems [m]
            \<longrightarrow> downloads_of (effects (play r s)) = downloads_of (effects s) @ [m_url m]
              \<and> awaitingDownload (play r s) = awaitingDownload s @ [newItem m])
       \<and> ((resolved r = YoutubePlaylist ms \<or> resolved r = SpotifyItems ms) \<and> length ms \<noteq> 1
            \<longrightarrow> downloads_of (effects (play r s)) = downloads_of (effects s)
              \<and> awaitingDownload (play r s) = awaitingDownload s
              \<and> queue (play r s) = map newItem ms)"
proof -
  define s1 where "s1 = (case connection s of None \<Rightarrow> s\<lparr>connection := Some (VoiceConnection ch)\<rparr> | Some c \<Rightarrow> s)"
  have e: "ensureConnection ch (connectOk r) s = (True, s1)"
    using assms(2) by (simp add: ensureConnection_def s1_def)
  have f: "queue s1 = [] \<and> \<not> downloading s1 \<and> effects s1 = effects s
           \<and> awaitingDownload s1 = awaitingDownload s
           \<and> repeat s1 = repeat s \<and> currentlyPlaying s1 = currentlyPlaying s"
    using assms(3,4) by (simp add: s1_def split: option.splits)
  have one: "downloads_of (effects (play_check (play_push [m] s1))) = downloads_of (effects s) @ [m_url m]
           \<and> awaitingDownload (play_check (play_push [m] s1)) = awaitingDownload s @ [newItem m]"
  proof -
    have q: "queue (play_push [m] s1) = [newItem m]" using f by (simp add: play_push_def)
    have r': "repeat (play_push [m] s1) \<noteq> RepeatSingle \<or> currentlyPlaying (play_push [m] s1) = None"
      using f assms(5) by (simp add: play_push_def)
    have d: "\<not> downloading (play_push [m] s1)" using f by (simp add: play_push_def)
    have u: "url (newItem m) = m_url m" by (simp add: newItem_def)
    show ?thesis
      using playNext_single_item [OF q r'] q d f u
      by (simp add: play_check_def) (simp add: play_push_def)
  qed
  have many: "downloads_of (effects (play_check (play_push ms s1))) = downloads_of (effects s)
           \<and> awaitingDownload (play_check (play_push ms s1)) = awaitingDownload s
           \<and> queue (play_check (play_push ms s1)) = map newItem ms" if "length ms \<noteq> 1"
    using that f by (simp add: play_check_def play_push_def)
  have empty: "downloads_of (effects s1) = downloads_of (effects s)
           \<and> awaitingDownload s1 = awaitingDownload s \<and> queue s1 = map newItem []"
    using f by simp
  show ?thesis
    using assms(1) e one many empty
    by (auto simp: play_def)
qed

theorem play_starts_head_of_single_item_witness:
  "voiceChannel (request (YoutubeVideo (meta ''A''))) = Some ''general''
   \<and> connectOk (request (YoutubeVideo (meta ''A'')))
   \<and> queue init = [] \<and> \<not> downloading init \<and> currentlyPlaying init = None
   \<and> downloads_of (effects (play (request (YoutubeVideo (meta ''A''))) init)) = [m_url (meta ''A'')]
   \<and> awaitingDownload (play (request (YoutubeVideo (meta ''A''))) init) = [item ''A'']
   \<and> downloads_of (effects (play (request (SpotifyItems [meta ''A'', meta ''B''])) init)) = []"
proof -
  have v: "voiceChannel (request (YoutubeVideo (meta ''A''))) = Some ''general''"
    and c: "connectOk (request (YoutubeVideo (meta ''A'')))"
    and v2: "voiceChannel (request (SpotifyItems [meta ''A'', meta ''B''])) = Some ''general''"
    and c2: "connectOk (request (SpotifyItems [meta ''A'', meta ''B'']))"
    by (simp_all add: request_def)
  have i: "queue init = []" "\<not> downloading init" "repeat init \<noteq> RepeatSingle \<or> currentlyPlaying init = None"
    "currentlyPlaying init = None" "effects init = []" "awaitingDownload init = []"
    by (simp_all add: init_def)
  have r1: "resolved (request (YoutubeVideo (meta ''A''))) = YoutubeVideo (meta ''A'')"
    and r2: "resolved (request (SpotifyItems [meta ''A'', meta ''B''])) = SpotifyItems [meta ''A'', meta ''B'']"
    by (simp_all add: request_def)
  show ?thesis
    using play_starts_head_of_single_item [OF v c i(1,2,3), of "meta ''A''" "[]"]
          play_starts_head_of_single_item [OF v2 c2 i(1,2,3), of "meta ''Z''" "[meta ''A'', meta ''B'']"]
          v c i r1 r2
    by (simp add: item_def)
qed

section \<open>Repeat mode \<^verbatim>\<open>single\<close>\<close>

text \<open>
  C8. Under repeat \<^verbatim>\<open>single\<close> every advance after a completion should choose the current
  track again and leave the queue alone, whatever the queue holds. The code does
  otherwise. \<open>A\<close> is requested, starts and ends: the queue is empty, the guard of
  \<^verbatim>\<open>playNext\<close> returns early, and \<open>A\<close> is not chosen again although it is still the
  current track and the mode is still \<^verbatim>\<open>single\<close> (the \<^verbatim>\<open>Idle\<close> handler alone gives the
  same). And with a playlist \<open>B, C, D\<close> queued while \<open>A\<close> plays, the completion of \<open>A\<close>
  chooses \<open>A\<close> again but takes \<open>B\<close> and \<open>C\<close> out of the queue.
\<close>

theorem single_repeat_of_only_track_stops:
  "repeat (run (SetRepeat RepeatSingle # started ''A'' @ [PlayerIdle]) init) = RepeatSingle
   \<and> currentlyPlaying (run (SetRepeat RepeatSingle # started ''A'' @ [PlayerIdle]) init)
     = Some (item ''A'')
   \<and> downloads_of (effects (run (SetRepeat RepeatSingle # started ''A'' @ [PlayerIdle]) init))
     = [url (item ''A'')]
   \<and> awaitingDownload (run (SetRepeat RepeatSingle # started ''A'' @ [PlayerIdle]) init) = []
   \<and> awaitingDownload (onIdle (run (SetRepeat RepeatSingle # started ''A'') init)) = []
   \<and> queue (run (SetRepeat RepeatSingle # started ''A'' @
        [Play (request (YoutubePlaylist [meta ''B'', meta ''C'', meta ''D'']))]) init)
     = [item ''B'', item ''C'', item ''D'']
   \<and> awaitingDownload (run (SetRepeat RepeatSingle # started ''A'' @
        [Play (request (YoutubePlaylist [meta ''B'', meta ''C'', meta ''D''])), PlayerIdle]) init)
     = [item ''A'']
   \<and> queue (run (SetRepeat RepeatSingle # started ''A'' @
        [Play (request (YoutubePlaylist [meta ''B'', meta ''C'', meta ''D''])), PlayerIdle]) init)
     = [item ''D'']"
  by code_simp

text \<open>
  What \<^verbatim>\<open>playNext\<close> does in general under repeat \<^verbatim>\<open>single\<close> with a current track: the
  choice of \<^verbatim>\<open>current\<close> returns the current track and leaves the queue untouched;
  \<^verbatim>\<open>playNext\<close> downloads that track again when the queue is not empty, and returns
  early, choosing nothing, when the queue is empty.
\<close>

theorem single_dequeue_keeps_queue:
  assumes "repeat s = RepeatSingle" and "currentlyPlaying s = Some c"
  shows "playNext_dequeue s = (Some c, s)
       \<and> (queue s \<noteq> [] \<longrightarrow>
            playNext s = s\<lparr>downloading := True, effects := effects s @ [Download (url c)],
                           awaitingDownload := awaitingDownload s @ [c]\<rparr>)
       \<and> (queue s = [] \<longrightarrow> playNext s = s)"
  using assms by (simp add: playNext_def playNext_dequeue_def)

theorem single_dequeue_keeps_queue_witness:
  "repeat (run (SetRepeat RepeatSingle # started ''A'' @ [Play (request (YoutubePlaylist [meta ''B'', meta ''C'']))]) init) = RepeatSingle
   \<and> currentlyPlaying (run (SetRepeat RepeatSingle # started ''A'' @ [Play (request (YoutubePlaylist [meta ''B'', meta ''C'']))]) init) = Some (item ''A'')
   \<and> queue (run (SetRepeat RepeatSingle # started ''A'' @ [Play (request (YoutubePlaylist [meta ''B'', meta ''C'']))]) init) = [item ''B'', item ''C'']
   \<and> queue (playNext (run (SetRepeat RepeatSingle # started ''A'' @ [Play (request (YoutubePlaylist [meta ''B'', meta ''C'']))]) init)) = [item ''B'', item ''C'']
   \<and> awaitingDownload (playNext (run (SetRepeat RepeatSingle # started ''A'' @ [Play (request (YoutubePlaylist [meta ''B'', meta ''C'']))]) init)) = [item ''A'']"
proof -
  let ?s = "run (SetRepeat RepeatSingle # started ''A'' @ [Play (request (YoutubePlaylist [meta ''B'', meta ''C'']))]) init"
  have r: "repeat ?s = RepeatSingle" by code_simp
  have c: "currentlyPlaying ?s = Some (item ''A'')" by code_simp
  have q: "queue ?s = [item ''B'', item ''C'']" by code_simp
  have a: "awaitingDownload ?s = []" by code_simp
  show ?thesis
    using single_dequeue_keeps_queue [OF r c] r c q a by simp
qed

section \<open>The optional \<^verbatim>\<open>filePath\<close>\<close>

lemma no_filePath_catch: "no_filePath s \<Longrightarrow> no_filePath (playNext_catch e s)"
  by (cases "queue s") (simp_all add: no_filePath_def playNext_catch_def shift_def unlinked_of_append)

lemma no_filePath_downloading: "no_filePath s \<Longrightarrow> no_filePath (s\<lparr>downloading := b\<rparr>)"
  by (simp add: no_filePath_def)

lemma no_filePath_dequeue:
  assumes "no_filePath s" and "playNext_dequeue s = (current, s1)"
  shows "no_filePath s1 \<and> (case current of None \<Rightarrow> True | Some c \<Rightarrow> unset c)"
proof (cases "repeat s = RepeatSingle \<and> currentlyPlaying s \<noteq> None")
  case True
  then show ?thesis
    using assms by (auto simp: playNext_dequeue_def no_filePath_def)
next
  case False
  then show ?thesis
    using assms
    by (cases "queue s") (auto simp: playNext_dequeue_def no_filePath_def shift_def split: if_splits)
qed

lemma no_filePath_playNext: "no_filePath s \<Longrightarrow> no_filePath (playNext s)"
proof -
  assume a: "no_filePath s"
  obtain current s1 where d: "playNext_dequeue s = (current, s1)"
    by (cases "playNext_dequeue s")
  from no_filePath_dequeue [OF a d]
  have s1: "no_filePath s1" and c: "case current of None \<Rightarrow> True | Some c \<Rightarrow> unset c"
    by simp_all
  show ?thesis
  proof (cases current)
    case None
    then show ?thesis
      using a d no_filePath_catch [OF no_filePath_downloading [OF s1, of True], of TypeError]
      by (simp add: playNext_def)
  next
    case (Some x)
    then show ?thesis
      using a d s1 c by (simp add: playNext_def no_filePath_def unlinked_of_append)
  qed
qed

lemma no_filePath_downloaded: "no_filePath s \<Longrightarrow> no_filePath (playNext_downloaded p s)"
proof -
  assume a: "no_filePath s"
  show ?thesis
  proof (cases "awaitingDownload s")
    case Nil
    then show ?thesis using a by (simp add: playNext_downloaded_def)
  next
    case (Cons c rest)
    have r: "no_filePath (s\<lparr>awaitingDownload := rest\<rparr>)"
      using a Cons by (simp add: no_filePath_def)
    have r2: "no_filePath (s\<lparr>awaitingDownload := rest, downloading := False\<rparr>)"
      using a Cons by (simp add: no_filePath_def)
    have r3: "no_filePath (s\<lparr>awaitingDownload := rest, downloading := False,
                       awaitingReady := awaitingReady s @ [c]\<rparr>)"
      using a Cons by (simp add: no_filePath_def)
    show ?thesis
      using Cons a no_filePath_catch [OF r] no_filePath_catch [OF r2] r3
      by (cases p) (simp_all add: playNext_downloaded_def)
  qed
qed

lemma no_filePath_ready: "no_filePath s \<Longrightarrow> no_filePath (playNext_ready ok s)"
proof -
  assume a: "no_filePath s"
  show ?thesis
  proof (cases "awaitingReady s")
    case Nil
    then show ?thesis using a by (simp add: playNext_ready_def)
  next
    case (Cons c rest)
    have r: "no_filePath (s\<lparr>awaitingReady := rest\<rparr>)"
      using a Cons by (simp add: no_filePath_def)
    have r2: "no_filePath (s\<lparr>awaitingReady := rest, effects := effects s @ [AudioPlay c],
                  currentlyPlaying := Some c, listeners := listeners s @ [c]\<rparr>)"
      using a Cons by (simp add: no_filePath_def unlinked_of_append)
    show ?thesis
      using Cons no_filePath_catch [OF r] r2 by (simp add: playNext_ready_def)
  qed
qed

lemma no_filePath_onStateChange: "no_filePath s \<Longrightarrow> no_filePath (onStateChange s)"
  by (cases "queue s") (simp_all add: no_filePath_def onStateChange_def shift_def list_all_tl)

lemma no_filePath_onStateChange_pow: "no_filePath s \<Longrightarrow> no_filePath ((onStateChange ^^ n) s)"
  by (induction n) (simp_all add: no_filePath_onStateChange)

lemma no_filePath_onIdle: "no_filePath s \<Longrightarrow> no_filePath (onIdle s)"
proof -
  assume a: "no_filePath s"
  show ?thesis
  proof (cases "queue s")
    case Nil
    have "no_filePath (s\<lparr>queue := []\<rparr>)" using a by (simp add: no_filePath_def)
    then show ?thesis using Nil by (simp add: onIdle_def shift_def no_filePath_playNext)
  next
    case (Cons f rest)
    have f: "filePath f = None" using a Cons by (simp add: no_filePath_def unset_def)
    have "no_filePath (s\<lparr>queue := rest\<rparr>)" using a Cons by (simp add: no_filePath_def)
    then show ?thesis using Cons f by (simp add: onIdle_def shift_def no_filePath_playNext)
  qed
qed

lemma no_filePath_push: "no_filePath s \<Longrightarrow> no_filePath (play_push ms s)"
  by (auto simp: no_filePath_def play_push_def list_all_iff unset_def newItem_def)

lemma no_filePath_check: "no_filePath s \<Longrightarrow> no_filePath (play_check s)"
  by (simp add: play_check_def no_filePath_playNext)

lemma no_filePath_ensure: "no_filePath s \<Longrightarrow> no_filePath (snd (ensureConnection ch ok s))"
  by (simp add: ensureConnection_def no_filePath_def unlinked_of_append split: option.splits)

lemma no_filePath_play: "no_filePath s \<Longrightarrow> no_filePath (play r s)"
proof -
  assume a: "no_filePath s"
  show ?thesis
  proof (cases "voiceChannel r")
    case None
    then show ?thesis using a by (simp add: play_def)
  next
    case (Some ch)
    obtain connected s1 where e: "ensureConnection ch (connectOk r) s = (connected, s1)"
      by (cases "ensureConnection ch (connectOk r) s")
    have s1: "no_filePath s1"
      using no_filePath_ensure [OF a, of ch "connectOk r"] e by simp
    show ?thesis
      using Some e s1
      by (cases "resolved r")
         (simp_all add: play_def no_filePath_push no_filePath_check)
  qed
qed

lemma no_filePath_step: "no_filePath s \<Longrightarrow> no_filePath (step ev s)"
proof (cases ev)
  case (Play r)
  assume "no_filePath s"
  then show ?thesis using Play by (simp add: no_filePath_play)
next
  case (PlayConnect ch ok)
  assume "no_filePath s"
  then show ?thesis using PlayConnect by (simp add: no_filePath_ensure)
next
  case (PlayPush ms)
  assume "no_filePath s"
  then show ?thesis using PlayPush by (simp add: no_filePath_push)
next
  case PlayCheck
  assume "no_filePath s"
  then show ?thesis using PlayCheck by (simp add: no_filePath_check)
next
  case (SetRepeat m)
  assume "no_filePath s"
  then show ?thesis using SetRepeat by (simp add: setRepeat_def no_filePath_def)
next
  case Stop
  assume "no_filePath s"
  then show ?thesis using Stop
    by (simp add: stop_def no_filePath_def unlinked_of_append split: option.splits)
next
  case Skip
  assume "no_filePath s"
  then show ?thesis using Skip by (simp add: skip_def no_filePath_def unlinked_of_append)
next
  case PlayerIdle
  assume "no_filePath s"
  then show ?thesis using PlayerIdle
    by (simp add: playerIdle_def no_filePath_onIdle no_filePath_onStateChange_pow)
next
  case PlayerError
  assume "no_filePath s"
  then show ?thesis using PlayerError
    by (cases "queue s") (simp_all add: onError_def no_filePath_def shift_def)
next
  case (TimerFired i)
  assume a: "no_filePath s"
  have "no_filePath (s\<lparr>timers := take i (timers s) @ drop (Suc i) (timers s)\<rparr>)"
    using a by (simp add: no_filePath_def)
  then show ?thesis using TimerFired a by (simp add: timerFired_def no_filePath_playNext)
next
  case (Downloaded p)
  assume "no_filePath s"
  then show ?thesis using Downloaded by (simp add: no_filePath_downloaded)
next
  case (ConnectionReady ok)
  assume "no_filePath s"
  then show ?thesis using ConnectionReady by (simp add: no_filePath_ready)
next
  case ConnectionLost
  assume "no_filePath s"
  then show ?thesis using ConnectionLost
    by (simp add: connectionLost_def no_filePath_def unlinked_of_append split: option.splits)
qed

lemma no_filePath_run: "no_filePath s \<Longrightarrow> no_filePath (run es s)"
  unfolding run_def by (induction es arbitrary: s) (simp_all add: no_filePath_step)

lemma no_filePath_init: "no_filePath init"
  by (simp add: no_filePath_def init_def)

text \<open>
  C9. In every state a run of the session reaches, no descriptor in the queue and no
  current track has a \<^verbatim>\<open>filePath\<close>, and \<^verbatim>\<open>unlinkSync\<close> was never called: the branch of
  lines 106-112 never runs.
\<close>

theorem filePath_never_set:
  "(\<forall>i \<in> set (queue (run es init)). filePath i = None)
   \<and> (\<forall>c. currentlyPlaying (run es init) = Some c \<longrightarrow> filePath c = None)
   \<and> unlinked_of (effects (run es init)) = []"
  using no_filePath_run [OF no_filePath_init, of es]
  by (auto simp: no_filePath_def list_all_iff unset_def)

theorem filePath_never_set_witness:
  "queue (run (started ''A'' @ [Play (request (YoutubePlaylist [meta ''B'', meta ''C'']))]) init)
     = [item ''B'', item ''C'']
   \<and> currentlyPlaying (run (started ''A'' @ [Play (request (YoutubePlaylist [meta ''B'', meta ''C'']))]) init)
     = Some (item ''A'')
   \<and> filePath (item ''A'') = None \<and> filePath (item ''B'') = None \<and> filePath (item ''C'') = None
   \<and> unlinked_of (effects (run (started ''A'' @ [Play (request (YoutubePlaylist [meta ''B'', meta ''C'']))]) init)) = []"
proof -
  let ?s = "run (started ''A'' @ [Play (request (YoutubePlaylist [meta ''B'', meta ''C'']))]) init"
  have q: "queue ?s = [item ''B'', item ''C'']" by code_simp
  have c: "currentlyPlaying ?s = Some (item ''A'')" by code_simp
  show ?thesis
    using filePath_never_set [of "started ''A'' @ [Play (request (YoutubePlaylist [meta ''B'', meta ''C'']))]"] q c
    by simp
qed

section \<open>\<^verbatim>\<open>playNext\<close> on an empty queue under \<^verbatim>\<open>all\<close>\<close>



end
